theory Spec2Isabelle
  imports Main "HOL-Library.Sublist"
begin

section \<open>Python values, exceptions and dictionaries\<close>

text \<open>
  The library stores arbitrary Python objects in its fields. The values needed to state
  the properties are \<open>None\<close>, integers, strings, lists, a built-in callable named
  by its identifier (such as \<open>list\<close>) and a class named by its \<open>__name__\<close>.
\<close>

datatype pyval =
  PyNone | PyInt int | PyStr string | PyList "pyval list" | PyBuiltin string | PyType string

text \<open>
  The exceptions. \<open>ValueError\<close>, \<open>KeyError\<close> and \<open>AttributeError\<close> are raised by
  \<open>tri/named_struct/__init__.py\<close> itself; \<open>TypeError\<close> is what Python raises when a call
  does not fit a signature and what the test-suite expects from the constructor;
  \<open>ImmutabilityViolation\<close> is the error of the frozen variant.
\<close>

datatype error =
    ValueError string
  | KeyError string
  | AttributeError string
  | TypeError string
  | ImmutabilityViolation

text \<open>
  A \<open>dict\<close> with string keys is an association list in insertion order. The operations
  below are the built-in ones the source calls: \<open>k in d\<close>, \<open>d[k]\<close>, \<open>d[k] = v\<close>,
  \<open>d.get(k, x)\<close>, \<open>dict(pairs)\<close> and \<open>d.update(pairs)\<close>.
\<close>

type_synonym 'v pydict = "(string \<times> 'v) list"

definition dict_keys :: "'v pydict \<Rightarrow> string list" where
  "dict_keys d = map fst d"

definition dict_contains :: "'v pydict \<Rightarrow> string \<Rightarrow> bool" where
  "dict_contains d k \<longleftrightarrow> k \<in> set (dict_keys d)"

definition dict_getitem :: "'v pydict \<Rightarrow> string \<Rightarrow> error + 'v" where
  "dict_getitem d k = (case map_of d k of None \<Rightarrow> Inl (KeyError k) | Some v \<Rightarrow> Inr v)"

definition dict_get :: "'v pydict \<Rightarrow> string \<Rightarrow> 'v \<Rightarrow> 'v" where
  "dict_get d k x = (case map_of d k of None \<Rightarrow> x | Some v \<Rightarrow> v)"

primrec dict_setitem :: "string \<Rightarrow> 'v \<Rightarrow> 'v pydict \<Rightarrow> 'v pydict" where
  "dict_setitem k v [] = [(k, v)]"
| "dict_setitem k v (p # ps) = (if fst p = k then (k, v) # ps else p # dict_setitem k v ps)"

definition dict_update :: "'v pydict \<Rightarrow> (string \<times> 'v) list \<Rightarrow> 'v pydict" where
  "dict_update d pairs = fold (\<lambda>(k, v) acc. dict_setitem k v acc) pairs d"

definition dict_of :: "(string \<times> 'v) list \<Rightarrow> 'v pydict" where
  "dict_of pairs = dict_update [] pairs"

section \<open>Field descriptors, types and instances\<close>

text \<open>
  \<open>NamedStructField.__init__(self, default=None)\<close> keeps one attribute, \<open>default\<close>.
  The call binds its arguments as Python binds them to that signature: at most one
  positional argument, the only keyword accepted is \<open>default\<close>, and the parameter may
  not be given twice.
\<close>

record NamedStructField =
  default_val :: pyval

definition NamedStructField_init :: "pyval list \<Rightarrow> pyval pydict \<Rightarrow> error + NamedStructField" where
  "NamedStructField_init args kwargs =
     (if length args > 1 then
        Inl (TypeError ''__init__() takes at most 2 arguments'')
      else case find (\<lambda>k. k \<noteq> ''default'') (dict_keys kwargs) of
        Some k \<Rightarrow> Inl (TypeError (''__init__() got an unexpected keyword argument ''
                                   @ [CHR 0x27] @ k @ [CHR 0x27]))
      | None \<Rightarrow>
          if args \<noteq> [] \<and> dict_contains kwargs ''default'' then
            Inl (TypeError ''__init__() got multiple values for keyword argument default'')
          else Inr \<lparr>default_val = (case args of a # _ \<Rightarrow> a | [] \<Rightarrow> dict_get kwargs ''default'' PyNone)\<rparr>)"

text \<open>
  A struct type: its \<open>__name__\<close> and the ordered mapping \<open>Meta.members\<close> from field name
  to descriptor that the declarative decorator attaches to the class.
\<close>

record struct_type =
  cls_name :: string
  members :: "NamedStructField pydict"

text \<open>An instance: its class and the contents of the dictionary it is.\<close>

record struct_instance =
  cls :: struct_type
  items :: "pyval pydict"

definition get_members :: "struct_instance \<Rightarrow> NamedStructField pydict" where
  "get_members self = members (cls self)"

section \<open>Construction\<close>

text \<open>
  The loop over \<open>kwargs.items()\<close>: a keyword already present in \<open>values_by_name\<close>
  raises, any other is stored.
\<close>

fun bind_kwargs :: "pyval pydict \<Rightarrow> pyval pydict \<Rightarrow> error + pyval pydict" where
  "bind_kwargs [] values_by_name = Inr values_by_name"
| "bind_kwargs ((kwargs_name, v) # kwargs) values_by_name =
     (if dict_contains values_by_name kwargs_name then
        Inl (ValueError (''Field '' @ [CHR 0x22] @ kwargs_name @ [CHR 0x22]
                         @ '' already given as positional argument''))
      else bind_kwargs kwargs (dict_setitem kwargs_name v values_by_name))"

text \<open>
  \<open>Struct.__init__(**kw)\<close> is \<open>dict.__init__\<close>: it stores every pair of \<open>kw\<close> in the
  instance, which is empty when the object has just been created.
\<close>

definition Struct_init :: "struct_instance \<Rightarrow> pyval pydict \<Rightarrow> error + struct_instance" where
  "Struct_init self kw = Inr (self\<lparr>items := dict_update (items self) kw\<rparr>)"

definition NamedStruct_init :: "struct_instance \<Rightarrow> pyval list \<Rightarrow> pyval pydict \<Rightarrow> error + struct_instance" where
  "NamedStruct_init self args kwargs =
     (let members = get_members self in
      if length args > length members then
        Inl (ValueError ''Too many arguments'')
      else
        case bind_kwargs kwargs (dict_of (zip (dict_keys members) args)) of
          Inl e \<Rightarrow> Inl e
        | Inr values_by_name \<Rightarrow>
            (case find (\<lambda>kwargs_name. \<not> dict_contains members kwargs_name)
                       (dict_keys values_by_name) of
               Some kwargs_name \<Rightarrow> Inl (KeyError kwargs_name)
             | None \<Rightarrow>
                 Struct_init self
                   (dict_of (map (\<lambda>(name, field).
                                    (name, dict_get values_by_name name (default_val field)))
                                 members))))"

text \<open>Calling the class creates an empty instance and runs \<open>__init__\<close> on it.\<close>

definition NamedStruct_new :: "struct_type \<Rightarrow> pyval list \<Rightarrow> pyval pydict \<Rightarrow> error + struct_instance" where
  "NamedStruct_new c args kwargs = NamedStruct_init \<lparr>cls = c, items = []\<rparr> args kwargs"

section \<open>Access\<close>

definition NamedStruct_getitem :: "struct_instance \<Rightarrow> string \<Rightarrow> error + pyval" where
  "NamedStruct_getitem self key =
     (if \<not> dict_contains (get_members self) key then Inl (KeyError key)
      else dict_getitem (items self) key)"

definition NamedStruct_setitem :: "struct_instance \<Rightarrow> string \<Rightarrow> pyval \<Rightarrow> error + struct_instance" where
  "NamedStruct_setitem self key v =
     (if \<not> dict_contains (get_members self) key then Inl (KeyError key)
      else Inr (self\<lparr>items := dict_setitem key v (items self)\<rparr>))"

text \<open>The message \<open>"'%s' object has no attribute '%s'" % (self.__class__.__name__, k)\<close>.\<close>

definition no_attribute :: "struct_instance \<Rightarrow> string \<Rightarrow> error" where
  "no_attribute self k =
     AttributeError ([CHR 0x27] @ cls_name (cls self) @ [CHR 0x27] @ '' object has no attribute ''
                     @ [CHR 0x27] @ k @ [CHR 0x27])"

definition NamedStruct_setattr :: "struct_instance \<Rightarrow> string \<Rightarrow> pyval \<Rightarrow> error + struct_instance" where
  "NamedStruct_setattr self k v =
     (case NamedStruct_setitem self k v of
        Inl (KeyError _) \<Rightarrow> Inl (no_attribute self k)
      | Inl e \<Rightarrow> Inl e
      | Inr self' \<Rightarrow> Inr self')"

text \<open>
  Ordinary attribute lookup, \<open>object.__getattribute__(self, item)\<close>. The source relies
  on it: \<open>_get_members\<close> calls it for \<open>__class__\<close>, and \<open>__setattr__\<close> reads
  \<open>self.__class__.__name__\<close> for its message. Which further names an object has (the
  methods of \<open>dict\<close> such as \<open>keys\<close>, the attributes of the base classes) is fixed
  outside \<open>tri/named_struct/__init__.py\<close>, so that table is a parameter.
\<close>

definition object_getattribute ::
  "(string \<rightharpoonup> pyval) \<Rightarrow> struct_instance \<Rightarrow> string \<Rightarrow> error + pyval" where
  "object_getattribute others self item =
     (if item = ''__class__'' then Inr (PyType (cls_name (cls self)))
      else case others item of
             Some a \<Rightarrow> Inr a
           | None \<Rightarrow> Inl (no_attribute self item))"

text \<open>
  Modelled from the spec: attribute-style read is not defined in
  \<open>tri/named_struct/__init__.py\<close>; the class inherits it from the container base class
  \<open>Struct\<close> of the package \<open>tri.struct\<close>, which is not among the sources. By section 4.4
  of the specification it returns the stored value if the name is a schema key, on the
  same check as the subscript form: it reads \<open>self[item]\<close> (the comment on
  \<open>_get_members\<close> says that attribute access goes through \<open>__getitem__\<close>). When that
  raises the lookup error, the name is looked up as an ordinary attribute, as the
  source's own read of \<open>self.__class__\<close> requires, and only then does the read fail with
  the attribute-not-found error.
\<close>

definition Struct_getattr ::
  "(string \<rightharpoonup> pyval) \<Rightarrow> struct_instance \<Rightarrow> string \<Rightarrow> error + pyval" where
  "Struct_getattr others self item =
     (case NamedStruct_getitem self item of
        Inl (KeyError _) \<Rightarrow> object_getattribute others self item
      | Inl e \<Rightarrow> Inl e
      | Inr v \<Rightarrow> Inr v)"

text \<open>
  A program reads and writes an instance in either style. An operation that raises
  leaves the instance as it was: every \<open>raise\<close> of the source comes before the one
  statement that stores. A write returns \<open>None\<close>.
\<close>

datatype operation =
    GetItem string
  | SetItem string pyval
  | GetAttr string
  | SetAttr string pyval

fun perform ::
  "(string \<rightharpoonup> pyval) \<Rightarrow> operation \<Rightarrow> struct_instance \<Rightarrow> (error + pyval) \<times> struct_instance" where
  "perform others (GetItem k) self = (NamedStruct_getitem self k, self)"
| "perform others (GetAttr k) self = (Struct_getattr others self k, self)"
| "perform others (SetItem k v) self =
     (case NamedStruct_setitem self k v of Inl e \<Rightarrow> (Inl e, self) | Inr self' \<Rightarrow> (Inr PyNone, self'))"
| "perform others (SetAttr k v) self =
     (case NamedStruct_setattr self k v of Inl e \<Rightarrow> (Inl e, self) | Inr self' \<Rightarrow> (Inr PyNone, self'))"

definition run :: "(string \<rightharpoonup> pyval) \<Rightarrow> operation list \<Rightarrow> struct_instance \<Rightarrow> struct_instance" where
  "run others ops self = fold (\<lambda>operation s. snd (perform others operation s)) ops self"

text \<open>
  The class defines \<open>__getitem__\<close>, \<open>__setitem__\<close> and \<open>__setattr__\<close> and nothing else
  that touches the stored pairs, so an instance, being a \<open>dict\<close>, also answers to the
  operations of \<open>dict\<close> that the class does not override: \<open>del d[k]\<close>, \<open>d.pop(k)\<close>,
  \<open>d.update(pairs)\<close>, \<open>d.setdefault(k, v)\<close> and \<open>d.clear()\<close>. They act on the stored
  pairs directly; the built-in \<open>update\<close> and \<open>setdefault\<close> do not go through
  \<open>__setitem__\<close>.
\<close>

datatype dict_operation =
    DelItem string
  | Pop string
  | Update "pyval pydict"
  | SetDefault string pyval
  | Clear

definition dict_delitem :: "'v pydict \<Rightarrow> string \<Rightarrow> error + 'v pydict" where
  "dict_delitem d k =
     (if dict_contains d k then Inr (filter (\<lambda>p. fst p \<noteq> k) d) else Inl (KeyError k))"

fun perform_inherited :: "dict_operation \<Rightarrow> struct_instance \<Rightarrow> (error + pyval) \<times> struct_instance" where
  "perform_inherited (DelItem k) self =
     (case dict_delitem (items self) k of
        Inl e \<Rightarrow> (Inl e, self)
      | Inr d \<Rightarrow> (Inr PyNone, self\<lparr>items := d\<rparr>))"
| "perform_inherited (Pop k) self =
     (case dict_getitem (items self) k of
        Inl e \<Rightarrow> (Inl e, self)
      | Inr v \<Rightarrow> (Inr v, self\<lparr>items := filter (\<lambda>p. fst p \<noteq> k) (items self)\<rparr>))"
| "perform_inherited (Update pairs) self =
     (Inr PyNone, self\<lparr>items := dict_update (items self) pairs\<rparr>)"
| "perform_inherited (SetDefault k v) self =
     (case map_of (items self) k of
        Some x \<Rightarrow> (Inr x, self)
      | None \<Rightarrow> (Inr v, self\<lparr>items := dict_setitem k v (items self)\<rparr>))"
| "perform_inherited Clear self = (Inr PyNone, self\<lparr>items := []\<rparr>)"

datatype statement = Access operation | Inherited dict_operation

fun execute ::
  "(string \<rightharpoonup> pyval) \<Rightarrow> statement \<Rightarrow> struct_instance \<Rightarrow> (error + pyval) \<times> struct_instance" where
  "execute others (Access operation) self = perform others operation self"
| "execute others (Inherited operation) self = perform_inherited operation self"

definition execute_all ::
  "(string \<rightharpoonup> pyval) \<Rightarrow> statement list \<Rightarrow> struct_instance \<Rightarrow> struct_instance" where
  "execute_all others stmts self = fold (\<lambda>stmt s. snd (execute others stmt s)) stmts self"

section \<open>The ad-hoc type factory\<close>

text \<open>
  \<open>field_names\<close> is either a string or a sequence of names. \<open>str.split()\<close> without
  arguments cuts at runs of whitespace and drops empty words; \<open>replace(',', ' ')\<close>
  exchanges single characters.
\<close>

datatype field_names_arg = NameString string | NameSeq "string list"

definition isspace :: "char \<Rightarrow> bool" where
  "isspace c \<longleftrightarrow> c \<in> set [CHR 0x20, CHR 0x09, CHR 0x0A, CHR 0x0B, CHR 0x0C, CHR 0x0D]"

fun split_words :: "string \<Rightarrow> string \<Rightarrow> string list" where
  "split_words w [] = (if w = [] then [] else [w])"
| "split_words w (c # cs) =
     (if isspace c then (if w = [] then split_words [] cs else w # split_words [] cs)
      else split_words (w @ [c]) cs)"

definition str_split :: "string \<Rightarrow> string list" where
  "str_split s = split_words [] s"

definition str_replace :: "char \<Rightarrow> char \<Rightarrow> string \<Rightarrow> string" where
  "str_replace old new s = map (\<lambda>c. if c = old then new else c) s"

text \<open>
  Modelled from the spec: the class decorator \<open>declarative\<close> of the package
  \<open>tri.declarative\<close>, which builds \<open>Meta.members\<close> when a class is created, is not among
  the sources. By section 4.2 of the specification the schema of a new type is the schema
  of its base, walked first, followed by the fields of the class body: a name that is
  absent is appended at the end, a name that is present has its descriptor replaced in
  place.
\<close>

definition type_new :: "string \<Rightarrow> struct_type \<Rightarrow> NamedStructField pydict \<Rightarrow> struct_type" where
  "type_new name base body = \<lparr>cls_name = name, members = dict_update (members base) body\<rparr>"

text \<open>The class \<open>NamedStruct\<close> itself declares no field.\<close>

definition NamedStruct :: struct_type where
  "NamedStruct = \<lparr>cls_name = ''NamedStruct'', members = []\<rparr>"

text \<open>
  \<open>named_struct(field_names, typename="NamedStruct")\<close>; the optional argument is an
  \<open>option\<close>. \<open>NamedStructField()\<close> is the descriptor with the default \<open>None\<close>. The
  conversions \<open>map(str, field_names)\<close> and \<open>str(typename)\<close> leave strings as they are.
\<close>

definition named_struct :: "field_names_arg \<Rightarrow> string option \<Rightarrow> struct_type" where
  "named_struct field_names typename =
     (let field_names = (case field_names of
                           NameString s \<Rightarrow> str_split (str_replace (CHR '','') (CHR 0x20) s)
                         | NameSeq names \<Rightarrow> names);
          typename = (case typename of None \<Rightarrow> ''NamedStruct'' | Some t \<Rightarrow> t)
      in type_new typename NamedStruct
           (dict_of (map (\<lambda>field. (field, \<lparr>default_val = PyNone\<rparr>)) field_names)))"

text \<open>
  Names written one after the other with a separator after each: the text a caller
  passes as \<open>field_names\<close>, used to state what the factory reads out of a string.
\<close>

definition is_separator :: "char \<Rightarrow> bool" where
  "is_separator c \<longleftrightarrow> c = CHR '','' \<or> isspace c"

definition joined :: "string list \<Rightarrow> string list \<Rightarrow> string" where
  "joined names seps = concat (map2 (\<lambda>n sep. n @ sep) names seps)"

section \<open>The frozen variant\<close>

text \<open>
  Modelled from the spec: \<open>NamedFrozenStruct\<close> is imported by the test-suite but is not
  defined in \<open>tri/named_struct/__init__.py\<close>. By sections 3 and 4.5 of the specification
  a frozen instance has the shape of a struct instance plus an immutability flag that
  is set at the end of construction; construction binds the arguments exactly as for
  the mutable struct; a read returns the stored value if the name is a schema key and
  fails with the lookup error (subscript form) or the attribute-not-found error
  (attribute form) otherwise; once the flag is set every write, in either style and
  whatever the name, fails with an immutability error.
\<close>

record frozen_instance =
  struct :: struct_instance
  frozen :: bool

definition NamedFrozenStruct_new :: "struct_type \<Rightarrow> pyval list \<Rightarrow> pyval pydict \<Rightarrow> error + frozen_instance" where
  "NamedFrozenStruct_new c args kwargs =
     (case NamedStruct_new c args kwargs of
        Inl e \<Rightarrow> Inl e
      | Inr s \<Rightarrow> Inr \<lparr>struct = s, frozen = True\<rparr>)"

definition NamedFrozenStruct_getitem :: "frozen_instance \<Rightarrow> string \<Rightarrow> error + pyval" where
  "NamedFrozenStruct_getitem self key = NamedStruct_getitem (struct self) key"

definition NamedFrozenStruct_getattr :: "frozen_instance \<Rightarrow> string \<Rightarrow> error + pyval" where
  "NamedFrozenStruct_getattr self item =
     (case NamedStruct_getitem (struct self) item of
        Inl (KeyError _) \<Rightarrow> Inl (no_attribute (struct self) item)
      | Inl e \<Rightarrow> Inl e
      | Inr v \<Rightarrow> Inr v)"

definition NamedFrozenStruct_setitem :: "frozen_instance \<Rightarrow> string \<Rightarrow> pyval \<Rightarrow> error + frozen_instance" where
  "NamedFrozenStruct_setitem self key v =
     (if frozen self then Inl ImmutabilityViolation
      else case NamedStruct_setitem (struct self) key v of
             Inl e \<Rightarrow> Inl e
           | Inr s \<Rightarrow> Inr (self\<lparr>struct := s\<rparr>))"

definition NamedFrozenStruct_setattr :: "frozen_instance \<Rightarrow> string \<Rightarrow> pyval \<Rightarrow> error + frozen_instance" where
  "NamedFrozenStruct_setattr self k v =
     (if frozen self then Inl ImmutabilityViolation
      else case NamedStruct_setattr (struct self) k v of
             Inl e \<Rightarrow> Inl e
           | Inr s \<Rightarrow> Inr (self\<lparr>struct := s\<rparr>))"

fun perform_frozen :: "operation \<Rightarrow> frozen_instance \<Rightarrow> (error + pyval) \<times> frozen_instance" where
  "perform_frozen (GetItem k) self = (NamedFrozenStruct_getitem self k, self)"
| "perform_frozen (GetAttr k) self = (NamedFrozenStruct_getattr self k, self)"
| "perform_frozen (SetItem k v) self =
     (case NamedFrozenStruct_setitem self k v of
        Inl e \<Rightarrow> (Inl e, self) | Inr self' \<Rightarrow> (Inr PyNone, self'))"
| "perform_frozen (SetAttr k v) self =
     (case NamedFrozenStruct_setattr self k v of
        Inl e \<Rightarrow> (Inl e, self) | Inr self' \<Rightarrow> (Inr PyNone, self'))"

definition run_frozen :: "operation list \<Rightarrow> frozen_instance \<Rightarrow> frozen_instance" where
  "run_frozen ops self = fold (\<lambda>operation s. snd (perform_frozen operation s)) ops self"

section \<open>The mapping a construction call denotes\<close>

text \<open>
  What a call is expected to store, read off its arguments: every field, in schema
  order, with the positional value, else the keyword value, else the static default of
  its descriptor.
\<close>

definition bound_items :: "struct_type \<Rightarrow> pyval list \<Rightarrow> pyval pydict \<Rightarrow> pyval pydict" where
  "bound_items c args kwargs =
     map (\<lambda>(name, field).
            (name, dict_get (zip (dict_keys (members c)) args @ kwargs) name (default_val field)))
         (members c)"

section \<open>Facts about dictionaries\<close>

lemma fst_set_setitem: "fst ` set (dict_setitem k v d) = insert k (fst ` set d)"
  by (induction d) auto

lemma dict_keys_setitem: "set (dict_keys (dict_setitem k v d)) = insert k (set (dict_keys d))"
  by (simp add: dict_keys_def fst_set_setitem)

lemma map_of_setitem: "map_of (dict_setitem k v d) = (map_of d)(k \<mapsto> v)"
  by (induction d) (auto simp: fun_eq_iff)

lemma distinct_setitem: "distinct (dict_keys d) \<Longrightarrow> distinct (dict_keys (dict_setitem k v d))"
  by (induction d) (auto simp: dict_keys_def fst_set_setitem)

lemma setitem_fresh: "k \<notin> set (dict_keys d) \<Longrightarrow> dict_setitem k v d = d @ [(k, v)]"
  by (induction d) (auto simp: dict_keys_def)

lemma dict_update_Nil: "dict_update d [] = d"
  by (simp add: dict_update_def)

lemma dict_update_Cons: "dict_update d ((k, v) # ps) = dict_update (dict_setitem k v d) ps"
  by (simp add: dict_update_def)

lemma dict_keys_update: "set (dict_keys (dict_update d ps)) = set (dict_keys d) \<union> set (map fst ps)"
proof (induction ps arbitrary: d)
  case Nil
  then show ?case by (simp add: dict_update_Nil)
next
  case (Cons p ps)
  obtain k v where p: "p = (k, v)" by (cases p)
  show ?case
    unfolding p dict_update_Cons Cons.IH dict_keys_setitem by auto
qed

lemma distinct_update: "distinct (dict_keys d) \<Longrightarrow> distinct (dict_keys (dict_update d ps))"
  by (induction ps arbitrary: d) (auto simp: dict_update_Nil dict_update_Cons distinct_setitem)

lemma dict_update_fresh:
  "distinct (map fst ps) \<Longrightarrow> set (map fst ps) \<inter> set (dict_keys d) = {} \<Longrightarrow> dict_update d ps = d @ ps"
proof (induction ps arbitrary: d)
  case Nil
  then show ?case by (simp add: dict_update_Nil)
next
  case (Cons p ps)
  obtain k v where p: "p = (k, v)" by (cases p)
  from Cons.prems p have fresh: "k \<notin> set (dict_keys d)" by auto
  have "dict_update d (p # ps) = dict_update (d @ [(k, v)]) ps"
    by (simp add: p dict_update_Cons setitem_fresh[OF fresh])
  also have "\<dots> = (d @ [(k, v)]) @ ps"
    using Cons.prems p by (intro Cons.IH) (auto simp: dict_keys_def)
  finally show ?case by (simp add: p)
qed

lemma dict_of_distinct: "distinct (map fst ps) \<Longrightarrow> dict_of ps = ps"
  by (simp add: dict_of_def dict_update_fresh dict_keys_def)

lemma bind_kwargs_fresh:
  "distinct (map fst kwargs) \<Longrightarrow> set (map fst kwargs) \<inter> set (dict_keys d) = {}
   \<Longrightarrow> bind_kwargs kwargs d = Inr (d @ kwargs)"
proof (induction kwargs arbitrary: d)
  case Nil
  then show ?case by simp
next
  case (Cons p kwargs)
  obtain k v where p: "p = (k, v)" by (cases p)
  from Cons.prems p have fresh: "k \<notin> set (dict_keys d)" by auto
  have "bind_kwargs (p # kwargs) d = bind_kwargs kwargs (d @ [(k, v)])"
    by (simp add: p dict_contains_def fresh setitem_fresh[OF fresh])
  also have "\<dots> = Inr ((d @ [(k, v)]) @ kwargs)"
    using Cons.prems p by (intro Cons.IH) (auto simp: dict_keys_def)
  finally show ?case by (simp add: p)
qed

section \<open>Facts about construction\<close>

lemma dict_keys_bound_items: "dict_keys (bound_items c args kwargs) = dict_keys (members c)"
  by (simp add: bound_items_def dict_keys_def case_prod_unfold comp_def)

lemma find_skip: "\<forall>x \<in> set xs. \<not> P x \<Longrightarrow> find P (xs @ ys) = find P ys"
  by (induction xs) auto

lemma NamedStruct_new_unfold:
  assumes dm: "distinct (dict_keys (members c))"
    and len: "length args \<le> length (members c)"
    and dk: "distinct (dict_keys kwargs)"
    and disj: "set (dict_keys kwargs) \<inter> set (take (length args) (dict_keys (members c))) = {}"
  shows "NamedStruct_new c args kwargs =
           (case find (\<lambda>n. \<not> dict_contains (members c) n) (dict_keys kwargs) of
              Some n \<Rightarrow> Inl (KeyError n)
            | None \<Rightarrow> Inr \<lparr>cls = c, items = bound_items c args kwargs\<rparr>)"
proof -
  let ?keys = "dict_keys (members c)"
  let ?pos = "zip ?keys args"
  have pos_keys: "map fst ?pos = take (length args) ?keys"
    using len by (simp add: map_fst_zip_take dict_keys_def min_def)
  have "distinct (map fst ?pos)"
    unfolding pos_keys using dm by simp
  then have pos: "dict_of ?pos = ?pos"
    by (rule dict_of_distinct)
  have bind: "bind_kwargs kwargs ?pos = Inr (?pos @ kwargs)"
    using dk disj by (intro bind_kwargs_fresh) (auto simp: dict_keys_def pos_keys[unfolded dict_keys_def])
  have in_pos: "\<forall>n \<in> set (map fst ?pos). dict_contains (members c) n"
    unfolding pos_keys dict_contains_def by (auto dest: in_set_takeD)
  have find_eq: "find (\<lambda>n. \<not> dict_contains (members c) n) (dict_keys (?pos @ kwargs))
                 = find (\<lambda>n. \<not> dict_contains (members c) n) (dict_keys kwargs)"
    using in_pos by (simp add: dict_keys_def find_skip)
  have "distinct (map fst (bound_items c args kwargs))"
    using dm dict_keys_bound_items[of c args kwargs] by (simp add: dict_keys_def)
  then have fin: "dict_of (bound_items c args kwargs) = bound_items c args kwargs"
    by (rule dict_of_distinct)
  have store: "Struct_init \<lparr>cls = c, items = []\<rparr> (dict_of (bound_items c args kwargs))
               = Inr \<lparr>cls = c, items = bound_items c args kwargs\<rparr>"
    unfolding fin by (simp add: Struct_init_def dict_of_def[symmetric] fin)
  have "NamedStruct_new c args kwargs =
          (case bind_kwargs kwargs (dict_of ?pos) of
             Inl e \<Rightarrow> Inl e
           | Inr values_by_name \<Rightarrow>
               (case find (\<lambda>n. \<not> dict_contains (members c) n) (dict_keys values_by_name) of
                  Some n \<Rightarrow> Inl (KeyError n)
                | None \<Rightarrow>
                    Struct_init \<lparr>cls = c, items = []\<rparr>
                      (dict_of (map (\<lambda>(name, field).
                                       (name, dict_get values_by_name name (default_val field)))
                                    (members c)))))"
    using len by (simp add: NamedStruct_new_def NamedStruct_init_def get_members_def Let_def)
  also have "\<dots> =
          (case find (\<lambda>n. \<not> dict_contains (members c) n) (dict_keys kwargs) of
             Some n \<Rightarrow> Inl (KeyError n)
           | None \<Rightarrow> Struct_init \<lparr>cls = c, items = []\<rparr> (dict_of (bound_items c args kwargs)))"
    unfolding pos bind by (simp only: sum.case find_eq bound_items_def)
  finally show ?thesis
    by (simp only: store)
qed

lemma bind_kwargs_InrD:
  "bind_kwargs kwargs d = Inr r \<Longrightarrow>
     distinct (dict_keys kwargs) \<and> set (dict_keys kwargs) \<inter> set (dict_keys d) = {}"
proof (induction kwargs arbitrary: d)
  case Nil
  then show ?case by (simp add: dict_keys_def)
next
  case (Cons p kwargs)
  obtain k v where p: "p = (k, v)" by (cases p)
  from Cons.prems p have fresh: "k \<notin> set (dict_keys d)"
    and rest: "bind_kwargs kwargs (dict_setitem k v d) = Inr r"
    by (auto simp: dict_contains_def split: if_splits)
  from Cons.IH[OF rest] have "distinct (dict_keys kwargs)"
    and "set (dict_keys kwargs) \<inter> insert k (set (dict_keys d)) = {}"
    by (simp_all add: dict_keys_setitem)
  with fresh show ?case
    by (auto simp: p dict_keys_def)
qed

lemma bind_kwargs_dup:
  "distinct (dict_keys kwargs) \<Longrightarrow> set (dict_keys kwargs) \<inter> set (dict_keys d) \<noteq> {} \<Longrightarrow>
     \<exists>k. bind_kwargs kwargs d =
           Inl (ValueError (''Field '' @ [CHR 0x22] @ k @ [CHR 0x22]
                            @ '' already given as positional argument''))
         \<and> k \<in> set (dict_keys kwargs) \<and> k \<in> set (dict_keys d)"
proof (induction kwargs arbitrary: d)
  case Nil
  then show ?case by (simp add: dict_keys_def)
next
  case (Cons p kwargs)
  obtain k v where p: "p = (k, v)" by (cases p)
  show ?case
  proof (cases "k \<in> set (dict_keys d)")
    case True
    then show ?thesis
      by (intro exI[of _ k]) (simp add: p dict_contains_def dict_keys_def)
  next
    case False
    from Cons.prems p have dk: "distinct (dict_keys kwargs)" and kn: "k \<notin> set (dict_keys kwargs)"
      by (simp_all add: dict_keys_def)
    from Cons.prems(2) obtain j where "j \<in> set (dict_keys (p # kwargs))" and jd: "j \<in> set (dict_keys d)"
      by blast
    with False p have "j \<in> set (dict_keys kwargs)"
      by (auto simp: dict_keys_def)
    with jd have "set (dict_keys kwargs) \<inter> set (dict_keys (dict_setitem k v d)) \<noteq> {}"
      unfolding dict_keys_setitem by blast
    from Cons.IH[OF dk this] obtain k' where
      r: "bind_kwargs kwargs (dict_setitem k v d) =
            Inl (ValueError (''Field '' @ [CHR 0x22] @ k' @ [CHR 0x22]
                             @ '' already given as positional argument''))"
      and k1: "k' \<in> set (dict_keys kwargs)"
      and k2: "k' \<in> set (dict_keys (dict_setitem k v d))"
      by blast
    from k1 kn have "k' \<noteq> k" by auto
    with k2 have "k' \<in> set (dict_keys d)" by (simp add: dict_keys_setitem)
    with r k1 False show ?thesis
      by (intro exI[of _ k']) (simp add: p dict_contains_def dict_keys_def)
  qed
qed

lemma NamedStruct_new_too_many:
  "length args > length (members c) \<Longrightarrow>
     NamedStruct_new c args kwargs = Inl (ValueError ''Too many arguments'')"
  by (simp add: NamedStruct_new_def NamedStruct_init_def get_members_def Let_def)

lemma pos_keys:
  "length args \<le> length (members c) \<Longrightarrow>
     dict_keys (dict_of (zip (dict_keys (members c)) args)) = take (length args) (dict_keys (members c))"
  if "distinct (dict_keys (members c))"
proof -
  assume len: "length args \<le> length (members c)"
  have pk: "map fst (zip (dict_keys (members c)) args) = take (length args) (dict_keys (members c))"
    using len by (simp add: map_fst_zip_take dict_keys_def min_def)
  then have "distinct (map fst (zip (dict_keys (members c)) args))"
    using that by simp
  then show ?thesis
    using pk by (simp add: dict_of_distinct) (simp add: dict_keys_def)
qed

lemma NamedStruct_new_InrD:
  assumes dm: "distinct (dict_keys (members c))"
    and ok: "NamedStruct_new c args kwargs = Inr s"
  shows "length args \<le> length (members c)"
    and "distinct (dict_keys kwargs)"
    and "set (dict_keys kwargs) \<inter> set (take (length args) (dict_keys (members c))) = {}"
    and "set (dict_keys kwargs) \<subseteq> set (dict_keys (members c))"
    and "s = \<lparr>cls = c, items = bound_items c args kwargs\<rparr>"
proof -
  show len: "length args \<le> length (members c)"
  proof (rule ccontr)
    assume "\<not> ?thesis"
    then have "NamedStruct_new c args kwargs = Inl (ValueError ''Too many arguments'')"
      by (intro NamedStruct_new_too_many) simp
    with ok show False by simp
  qed
  from ok len obtain r where "bind_kwargs kwargs (dict_of (zip (dict_keys (members c)) args)) = Inr r"
    by (auto simp: NamedStruct_new_def NamedStruct_init_def get_members_def Let_def split: sum.splits)
  from bind_kwargs_InrD[OF this]
  show dk: "distinct (dict_keys kwargs)"
    and disj: "set (dict_keys kwargs) \<inter> set (take (length args) (dict_keys (members c))) = {}"
    by (simp_all add: pos_keys[OF dm len])
  note unfold = NamedStruct_new_unfold[OF dm len dk disj]
  from ok unfold have none: "find (\<lambda>n. \<not> dict_contains (members c) n) (dict_keys kwargs) = None"
    by (auto split: option.splits)
  then show "set (dict_keys kwargs) \<subseteq> set (dict_keys (members c))"
    by (auto simp: find_None_iff dict_contains_def)
  from ok unfold none show "s = \<lparr>cls = c, items = bound_items c args kwargs\<rparr>"
    by simp
qed

lemma NamedStruct_new_InrI:
  assumes "distinct (dict_keys (members c))"
    and "length args \<le> length (members c)"
    and "distinct (dict_keys kwargs)"
    and "set (dict_keys kwargs) \<inter> set (take (length args) (dict_keys (members c))) = {}"
    and sub: "set (dict_keys kwargs) \<subseteq> set (dict_keys (members c))"
  shows "NamedStruct_new c args kwargs = Inr \<lparr>cls = c, items = bound_items c args kwargs\<rparr>"
proof -
  from sub have "find (\<lambda>n. \<not> dict_contains (members c) n) (dict_keys kwargs) = None"
    by (auto simp: find_None_iff dict_contains_def)
  with NamedStruct_new_unfold[OF assms(1-4)] show ?thesis by simp
qed

lemma map_of_map_keyed:
  "map_of (map (\<lambda>(n, f). (n, g n f)) ms) k = map_option (g k) (map_of ms k)"
  by (induction ms) auto

lemma map_of_bound_items:
  "map_of (bound_items c args kwargs) k =
     map_option (\<lambda>field. dict_get (zip (dict_keys (members c)) args @ kwargs) k (default_val field))
                (map_of (members c) k)"
  unfolding bound_items_def by (rule map_of_map_keyed)

lemma map_of_zip_at:
  "distinct xs \<Longrightarrow> i < length xs \<Longrightarrow> i < length ys \<Longrightarrow> map_of (zip xs ys) (xs ! i) = Some (ys ! i)"
proof (induction xs arbitrary: ys i)
  case Nil
  then show ?case by simp
next
  case (Cons x xs)
  then obtain y ys' where ys: "ys = y # ys'" by (cases ys) auto
  show ?case
  proof (cases i)
    case 0
    then show ?thesis by (simp add: ys)
  next
    case (Suc j)
    with Cons.prems ys have "xs ! j \<noteq> x" by auto
    with Cons Suc ys show ?thesis by simp
  qed
qed

lemma dict_get_positional:
  assumes "distinct (dict_keys ms)" and "i < length args" and "i < length ms"
  shows "dict_get (zip (dict_keys ms) args @ kwargs) (dict_keys ms ! i) x = args ! i"
proof -
  have "map_of (zip (dict_keys ms) args) (dict_keys ms ! i) = Some (args ! i)"
    using assms by (intro map_of_zip_at) (simp_all add: dict_keys_def)
  then show ?thesis
    by (simp add: dict_get_def map_add_def)
qed

lemma dict_get_keyword:
  assumes "set (dict_keys kwargs) \<inter> set (take (length args) (dict_keys ms)) = {}"
    and "length args \<le> length ms"
    and "map_of kwargs k = Some v"
  shows "dict_get (zip (dict_keys ms) args @ kwargs) k x = v"
proof -
  from assms(3) have "k \<in> set (dict_keys kwargs)"
    by (auto simp: dict_keys_def dest: map_of_SomeD intro: rev_image_eqI)
  with assms(1) have "k \<notin> set (take (length args) (dict_keys ms))" by blast
  moreover have "map fst (zip (dict_keys ms) args) = take (length args) (dict_keys ms)"
    using assms(2) by (simp add: map_fst_zip_take dict_keys_def min_def)
  ultimately have "map_of (zip (dict_keys ms) args) k = None"
    by (metis map_of_eq_None_iff set_map)
  with assms(3) show ?thesis
    by (simp add: dict_get_def map_add_def)
qed

lemma dict_get_default:
  assumes "k \<notin> set (take (length args) (dict_keys ms))"
    and "length args \<le> length ms"
    and "k \<notin> set (dict_keys kwargs)"
  shows "dict_get (zip (dict_keys ms) args @ kwargs) k x = x"
proof -
  have "map fst (zip (dict_keys ms) args) = take (length args) (dict_keys ms)"
    using assms(2) by (simp add: map_fst_zip_take dict_keys_def min_def)
  with assms(1) have "map_of (zip (dict_keys ms) args) k = None"
    by (metis map_of_eq_None_iff set_map)
  moreover from assms(3) have "map_of kwargs k = None"
    by (simp add: map_of_eq_None_iff dict_keys_def)
  ultimately show ?thesis
    by (simp add: dict_get_def map_add_def)
qed

lemma getitem_eq:
  "NamedStruct_getitem s k =
     (if dict_contains (members (cls s)) k
      then (case map_of (items s) k of None \<Rightarrow> Inl (KeyError k) | Some v \<Rightarrow> Inr v)
      else Inl (KeyError k))"
  by (simp add: NamedStruct_getitem_def get_members_def dict_getitem_def)

lemmas eval_defs = NamedStruct_new_def NamedStruct_init_def get_members_def type_new_def
  named_struct_def dict_update_def dict_of_def NamedStruct_def str_split_def str_replace_def
  isspace_def dict_keys_def dict_contains_def dict_get_def Struct_init_def

section \<open>Construction errors\<close>

text \<open>
  Claim C2. A construction call with more positional arguments than schema fields fails
  with a too-many-arguments error that reports the type name, the maximum allowed and
  the number given. The test \<open>test_constructor_failure\<close> expects the message
  \<open>MyNamedStruct() takes at most 2 arguments (3 given)\<close> for \<open>MyNamedStruct(1, 2, 3)\<close>.
  The source raises \<open>ValueError("Too many arguments")\<close>: the call fails, but the
  message carries neither the type name nor either count.
\<close>

theorem too_many_arguments_message:
  "NamedStruct_new (type_new ''MyNamedStruct'' (named_struct (NameString ''foo, bar'') None) [])
                   [PyInt 1, PyInt 2, PyInt 3] []
     = Inl (ValueError ''Too many arguments'')
   \<and> \<not> sublist ''MyNamedStruct'' ''Too many arguments''
   \<and> \<not> sublist ''2'' ''Too many arguments''
   \<and> \<not> sublist ''3'' ''Too many arguments''"
  by (simp add: eval_defs sublist_code)

text \<open>
  Claim C3. A construction call that gives the same field positionally and by keyword
  fails with a duplicate-value error naming the field and the type. The test
  \<open>test_constructor_failure\<close> expects, for \<open>MyNamedStruct(1, foo=2)\<close>, the message
  \<open>MyNamedStruct() got multiple values for keyword argument 'foo'\<close>. The source raises
  \<open>ValueError('Field "foo" already given as positional argument')\<close>: the call fails
  and the message names the field, but not the type.
\<close>

theorem duplicate_value_message:
  "NamedStruct_new (type_new ''MyNamedStruct'' (named_struct (NameString ''foo, bar'') None) [])
                   [PyInt 1] [(''foo'', PyInt 2)]
     = Inl (ValueError (''Field '' @ [CHR 0x22] @ ''foo'' @ [CHR 0x22]
                        @ '' already given as positional argument''))
   \<and> sublist ''foo'' (''Field '' @ [CHR 0x22] @ ''foo'' @ [CHR 0x22]
                       @ '' already given as positional argument'')
   \<and> \<not> sublist ''MyNamedStruct'' (''Field '' @ [CHR 0x22] @ ''foo'' @ [CHR 0x22]
                       @ '' already given as positional argument'')"
  by (simp add: eval_defs sublist_code)

text \<open>
  The same holds of every call within the positional limit: when some field is given
  both positionally and by keyword, construction raises this \<open>ValueError\<close>, and its
  message names a field given both ways. (The keyword arguments are a dictionary, so
  their names are distinct, as are the names of the schema.)
\<close>

lemma duplicate_value_raised:
  assumes "distinct (dict_keys (members c))"
    and "distinct (dict_keys kwargs)"
    and "length args \<le> length (members c)"
    and "set (dict_keys kwargs) \<inter> set (take (length args) (dict_keys (members c))) \<noteq> {}"
  shows "\<exists>k msg. NamedStruct_new c args kwargs = Inl (ValueError msg)
           \<and> sublist k msg
           \<and> k \<in> set (dict_keys kwargs)
           \<and> k \<in> set (take (length args) (dict_keys (members c)))"
proof -
  let ?pos = "dict_of (zip (dict_keys (members c)) args)"
  have pk: "dict_keys ?pos = take (length args) (dict_keys (members c))"
    using assms(1,3) by (simp add: pos_keys)
  with assms(4) have "set (dict_keys kwargs) \<inter> set (dict_keys ?pos) \<noteq> {}" by simp
  from bind_kwargs_dup[OF assms(2) this] obtain k where
    r: "bind_kwargs kwargs ?pos =
          Inl (ValueError (''Field '' @ [CHR 0x22] @ k @ [CHR 0x22]
                           @ '' already given as positional argument''))"
    and k: "k \<in> set (dict_keys kwargs)" "k \<in> set (dict_keys ?pos)"
    by blast
  have "NamedStruct_new c args kwargs =
          Inl (ValueError (''Field '' @ [CHR 0x22] @ k @ [CHR 0x22]
                           @ '' already given as positional argument''))"
    using assms(3) r by (simp add: NamedStruct_new_def NamedStruct_init_def get_members_def Let_def)
  moreover have "sublist k (''Field '' @ [CHR 0x22] @ k @ [CHR 0x22]
                           @ '' already given as positional argument'')"
    by (metis sublist_appendI append.assoc)
  ultimately show ?thesis
    using k pk by auto
qed

text \<open>
  Claim C4. A construction call with a keyword that is not a schema key, and that does
  not duplicate a positional value, fails with an unexpected-field error naming the
  keyword. As stated this does not hold of a call that has too many positional
  arguments: \<open>MyNamedStruct(1, 2, 3, boink=25)\<close> fails with the too-many-arguments
  error.
\<close>

theorem unexpected_keyword_counterexample:
  "NamedStruct_new (type_new ''MyNamedStruct'' (named_struct (NameString ''foo, bar'') None) [])
                   [PyInt 1, PyInt 2, PyInt 3] [(''boink'', PyInt 25)]
     = Inl (ValueError ''Too many arguments'')
   \<and> \<not> sublist ''boink'' ''Too many arguments''"
  by (simp add: eval_defs sublist_code)

text \<open>
  Claim C4, amended. A construction call with at most as many positional arguments as
  schema fields, no keyword naming a positionally bound field, and some keyword that is
  not a schema key fails with \<open>KeyError\<close> naming a keyword of the call that is not a
  schema key.
\<close>

theorem unexpected_keyword:
  assumes "distinct (dict_keys (members c))"
    and "distinct (dict_keys kwargs)"
    and "length args \<le> length (members c)"
    and "set (dict_keys kwargs) \<inter> set (take (length args) (dict_keys (members c))) = {}"
    and "\<not> set (dict_keys kwargs) \<subseteq> set (dict_keys (members c))"
  shows "\<exists>k. NamedStruct_new c args kwargs = Inl (KeyError k)
           \<and> k \<in> set (dict_keys kwargs)
           \<and> \<not> dict_contains (members c) k"
proof -
  from assms(5) obtain k where
    "find (\<lambda>n. \<not> dict_contains (members c) n) (dict_keys kwargs) = Some k"
    by (cases "find (\<lambda>n. \<not> dict_contains (members c) n) (dict_keys kwargs)")
       (auto simp: find_None_iff dict_contains_def)
  moreover from this have "k \<in> set (dict_keys kwargs)" "\<not> dict_contains (members c) k"
    by (auto simp: find_Some_iff)
  ultimately show ?thesis
    using NamedStruct_new_unfold[OF assms(1,3,2,4)] by simp
qed

theorem unexpected_keyword_witness:
  "\<exists>k. NamedStruct_new \<lparr>cls_name = ''MyNamedStruct'',
                         members = [(''foo'', \<lparr>default_val = PyNone\<rparr>),
                                    (''bar'', \<lparr>default_val = PyNone\<rparr>)]\<rparr>
                       [] [(''foo'', PyInt 17), (''bar'', PyInt 42), (''boink'', PyInt 25)]
          = Inl (KeyError k)
      \<and> k \<in> {''foo'', ''bar'', ''boink''}
      \<and> k \<notin> {''foo'', ''bar''}"
  using unexpected_keyword[of "\<lparr>cls_name = ''MyNamedStruct'',
                         members = [(''foo'', \<lparr>default_val = PyNone\<rparr>),
                                    (''bar'', \<lparr>default_val = PyNone\<rparr>)]\<rparr>"
                       "[(''foo'', PyInt 17), (''bar'', PyInt 42), (''boink'', PyInt 25)]" "[]"]
  by (simp add: dict_keys_def dict_contains_def)

section \<open>Positional binding and defaults\<close>

text \<open>
  Claim C5. For a construction call with at most as many positional arguments as schema
  fields, the i-th positional argument is bound to the i-th field in schema order: the
  call without keywords succeeds, and whenever a call with these positional arguments
  succeeds, reading the i-th field of the new instance returns the i-th argument. For the
  schema \<open>[foo, bar]\<close> and the arguments \<open>(1, 2)\<close> the instance is \<open>{foo: 1, bar: 2}\<close>.
  (The schema is an ordered mapping, so its names are distinct.)
\<close>

theorem positional_binding:
  assumes "distinct (dict_keys (members c))"
    and "length args \<le> length (members c)"
  shows "(\<exists>s. NamedStruct_new c args [] = Inr s)
       \<and> (\<forall>s. NamedStruct_new c args kwargs = Inr s \<longrightarrow>
             (\<forall>i < length args.
                NamedStruct_getitem s (dict_keys (members c) ! i) = Inr (args ! i)))"
proof (intro conjI allI impI)
  have "NamedStruct_new c args [] = Inr \<lparr>cls = c, items = bound_items c args []\<rparr>"
    using assms by (intro NamedStruct_new_InrI) (simp_all add: dict_keys_def)
  then show "\<exists>s. NamedStruct_new c args [] = Inr s" ..
next
  fix s i
  assume ok: "NamedStruct_new c args kwargs = Inr s" and less: "i < length args"
  note facts = NamedStruct_new_InrD[OF assms(1) ok]
  from less assms(2) have i: "i < length (members c)" by simp
  then have mem: "dict_keys (members c) ! i \<in> set (dict_keys (members c))"
    by (simp add: dict_keys_def)
  then obtain field where "map_of (members c) (dict_keys (members c) ! i) = Some field"
    by (metis dict_keys_def map_of_eq_None_iff not_Some_eq set_map)
  then have "map_of (items s) (dict_keys (members c) ! i) = Some (args ! i)"
    by (simp add: facts(5) map_of_bound_items dict_get_positional[OF assms(1) less i])
  with mem show "NamedStruct_getitem s (dict_keys (members c) ! i) = Inr (args ! i)"
    by (simp add: getitem_eq facts(5) dict_contains_def)
qed

theorem positional_binding_witness:
  "\<exists>s. NamedStruct_new (named_struct (NameSeq [''foo'', ''bar'']) None) [PyInt 1, PyInt 2] [] = Inr s
      \<and> NamedStruct_getitem s ''foo'' = Inr (PyInt 1)
      \<and> NamedStruct_getitem s ''bar'' = Inr (PyInt 2)"
proof -
  let ?c = "named_struct (NameSeq [''foo'', ''bar'']) None"
  have m: "members ?c = [(''foo'', \<lparr>default_val = PyNone\<rparr>), (''bar'', \<lparr>default_val = PyNone\<rparr>)]"
    by (simp add: eval_defs)
  have d: "distinct (dict_keys (members ?c))" and l: "length [PyInt 1, PyInt 2] \<le> length (members ?c)"
    unfolding m by (simp_all add: dict_keys_def)
  from positional_binding[OF d l, of "[]"] obtain s where
    ok: "NamedStruct_new ?c [PyInt 1, PyInt 2] [] = Inr s"
    and bound: "\<forall>i < length [PyInt 1, PyInt 2].
                  NamedStruct_getitem s (dict_keys (members ?c) ! i) = Inr ([PyInt 1, PyInt 2] ! i)"
    by blast
  from bound have "NamedStruct_getitem s (dict_keys (members ?c) ! 0) = Inr ([PyInt 1, PyInt 2] ! 0)"
    and "NamedStruct_getitem s (dict_keys (members ?c) ! 1) = Inr ([PyInt 1, PyInt 2] ! 1)"
    by simp_all
  then have "NamedStruct_getitem s ''foo'' = Inr (PyInt 1)"
    and "NamedStruct_getitem s ''bar'' = Inr (PyInt 2)"
    unfolding m by (simp_all add: dict_keys_def)
  with ok show ?thesis by blast
qed

lemma positional_example:
  "NamedStruct_new (named_struct (NameSeq [''foo'', ''bar'']) None) [PyInt 1, PyInt 2] []
     = Inr \<lparr>cls = named_struct (NameSeq [''foo'', ''bar'']) None,
            items = [(''foo'', PyInt 1), (''bar'', PyInt 2)]\<rparr>"
  by (simp add: eval_defs)

text \<open>
  Claim C6. A field that is not supplied receives the result of a fresh call of its
  descriptor's \<open>default_factory\<close> if it has one, else the static default. The test
  \<open>test_default_factory\<close> declares \<open>foo = NamedStructField(default_factory=list)\<close> and
  expects \<open>MyNamedStruct().foo == []\<close>. The descriptor of the source has no such
  parameter: its constructor accepts \<open>default\<close> only, so the declaration itself raises,
  and construction reads \<open>field.default\<close> and never calls a factory.
\<close>

theorem default_factory_rejected:
  "NamedStructField_init [] [(''default_factory'', PyBuiltin ''list'')]
     = Inl (TypeError (''__init__() got an unexpected keyword argument ''
                       @ [CHR 0x27] @ ''default_factory'' @ [CHR 0x27]))"
  by (simp add: NamedStructField_init_def dict_keys_def)

lemma NamedStructField_noargs: "NamedStructField_init [] [] = Inr \<lparr>default_val = PyNone\<rparr>"
  by (simp add: NamedStructField_init_def dict_keys_def dict_get_def dict_contains_def)

text \<open>
  What construction does do for a field that is not supplied: it stores the static
  default of the descriptor, and the instance has the schema's fields, once each, in
  schema order.
\<close>

lemma unsupplied_field_default:
  assumes "distinct (dict_keys (members c))"
    and "NamedStruct_new c args kwargs = Inr s"
    and "map_of (members c) k = Some field"
    and "k \<notin> set (take (length args) (dict_keys (members c)))"
    and "k \<notin> set (dict_keys kwargs)"
  shows "NamedStruct_getitem s k = Inr (default_val field)"
proof -
  note facts = NamedStruct_new_InrD[OF assms(1,2)]
  from assms(3) have "k \<in> set (dict_keys (members c))"
    by (metis dict_keys_def map_of_eq_None_iff option.distinct(1) set_map)
  moreover have "map_of (items s) k = Some (default_val field)"
    by (simp add: facts(5) map_of_bound_items assms(3) dict_get_default[OF assms(4) facts(1) assms(5)])
  ultimately show ?thesis
    by (simp add: getitem_eq facts(5) dict_contains_def)
qed

lemma one_value_per_field:
  assumes "distinct (dict_keys (members c))"
    and "NamedStruct_new c args kwargs = Inr s"
  shows "dict_keys (items s) = dict_keys (members c)"
  using NamedStruct_new_InrD(5)[OF assms] by (simp add: dict_keys_bound_items)

section \<open>The key set of an instance\<close>

lemma fst_set_update: "fst ` set (dict_update d ps) = fst ` set d \<union> fst ` set ps"
  using dict_keys_update[of d ps] by (simp add: dict_keys_def)

lemma NamedStruct_new_shape:
  assumes "NamedStruct_new c args kwargs = Inr s"
  shows "cls s = c"
    and "set (dict_keys (items s)) = set (dict_keys (members c))"
    and "distinct (dict_keys (items s))"
proof -
  from assms obtain ps where
    s: "s = \<lparr>cls = c, items = dict_update [] (dict_update [] ps)\<rparr>"
    and ps: "map fst ps = dict_keys (members c)"
  proof -
    from assms obtain vbn where
      "s = \<lparr>cls = c, items = dict_update [] (dict_update []
              (map (\<lambda>(name, field). (name, dict_get vbn name (default_val field))) (members c)))\<rparr>"
      by (auto simp: NamedStruct_new_def NamedStruct_init_def get_members_def Let_def
                     Struct_init_def dict_of_def
               split: if_splits sum.splits option.splits)
    moreover have "map fst (map (\<lambda>(name, field). (name, dict_get vbn name (default_val field)))
                     (members c)) = dict_keys (members c)"
      by (simp add: dict_keys_def case_prod_unfold comp_def)
    ultimately show ?thesis by (rule that)
  qed
  show "cls s = c" by (simp add: s)
  show "set (dict_keys (items s)) = set (dict_keys (members c))"
  proof -
    have "set (dict_keys (dict_update [] (dict_update [] ps))) = set (map fst ps)"
      by (simp add: dict_keys_def fst_set_update)
    then show ?thesis by (simp add: s ps)
  qed
  show "distinct (dict_keys (items s))"
    by (simp add: s distinct_update dict_keys_def[of "[]"])
qed

lemma perform_cls: "cls (snd (perform others operation s)) = cls s"
  by (cases operation)
     (auto simp: NamedStruct_setitem_def NamedStruct_setattr_def split: sum.splits error.splits if_splits)

lemma setattr_eq:
  "NamedStruct_setattr s k v =
     (if dict_contains (members (cls s)) k
      then Inr (s\<lparr>items := dict_setitem k v (items s)\<rparr>)
      else Inl (no_attribute s k))"
  by (simp add: NamedStruct_setattr_def NamedStruct_setitem_def get_members_def)

lemma setitem_eq:
  "NamedStruct_setitem s k v =
     (if dict_contains (members (cls s)) k
      then Inr (s\<lparr>items := dict_setitem k v (items s)\<rparr>)
      else Inl (KeyError k))"
  by (simp add: NamedStruct_setitem_def get_members_def)


lemma perform_keys:
  assumes "set (dict_keys (items s)) = set (dict_keys (members (cls s)))"
  shows "set (dict_keys (items (snd (perform others operation s)))) = set (dict_keys (items s))"
  using assms
  by (cases operation) (auto simp: setitem_eq setattr_eq dict_keys_setitem dict_contains_def)

lemma perform_distinct:
  "distinct (dict_keys (items s)) \<Longrightarrow>
     distinct (dict_keys (items (snd (perform others operation s))))"
  by (cases operation) (auto simp: setitem_eq setattr_eq distinct_setitem)

lemma run_invariant:
  assumes "set (dict_keys (items s)) = set (dict_keys (members (cls s)))"
    and "distinct (dict_keys (items s))"
  shows "cls (run others ops s) = cls s
       \<and> set (dict_keys (items (run others ops s))) = set (dict_keys (members (cls s)))
       \<and> distinct (dict_keys (items (run others ops s)))"
  using assms
proof (induction ops arbitrary: s)
  case Nil
  then show ?case by (simp add: run_def)
next
  case (Cons operation ops)
  let ?s = "snd (perform others operation s)"
  have "set (dict_keys (items ?s)) = set (dict_keys (members (cls ?s)))"
    using Cons.prems(1) by (simp add: perform_keys perform_cls)
  moreover have "distinct (dict_keys (items ?s))"
    using Cons.prems(2) by (rule perform_distinct)
  ultimately have "cls (run others ops ?s) = cls ?s
       \<and> set (dict_keys (items (run others ops ?s))) = set (dict_keys (members (cls ?s)))
       \<and> distinct (dict_keys (items (run others ops ?s)))"
    by (rule Cons.IH)
  moreover have "run others (operation # ops) s = run others ops ?s"
    by (simp add: run_def)
  ultimately show ?case
    by (simp add: perform_cls)
qed


text \<open>
  Claim C7. At every point after construction and under any sequence of attribute-style
  and subscript-style operations, the key set of an instance is exactly the schema key
  set of its type: no field is ever added, removed or left absent. As stated this does
  not hold: the class does not override deletion, so the subscript-style \<open>del s['foo']\<close>
  on a new instance of a type with the schema \<open>[foo, bar]\<close> removes the field \<open>foo\<close>.
\<close>

theorem key_removed_by_delitem:
  "NamedStruct_new (named_struct (NameString ''foo, bar'') None) [] []
     = Inr \<lparr>cls = named_struct (NameString ''foo, bar'') None,
            items = [(''foo'', PyNone), (''bar'', PyNone)]\<rparr>
   \<and> set (dict_keys (members (named_struct (NameString ''foo, bar'') None))) = {''foo'', ''bar''}
   \<and> items (execute_all Map.empty [Inherited (DelItem ''foo'')]
               \<lparr>cls = named_struct (NameString ''foo, bar'') None,
                items = [(''foo'', PyNone), (''bar'', PyNone)]\<rparr>)
     = [(''bar'', PyNone)]"
  by (simp add: eval_defs execute_all_def dict_delitem_def)

text \<open>
  Likewise the inherited \<open>update\<close> stores a name that is not in the schema.
\<close>

lemma foreign_key_by_update:
  "items (execute_all Map.empty [Inherited (Update [(''boink'', PyInt 25)])]
            \<lparr>cls = named_struct (NameString ''foo, bar'') None,
             items = [(''foo'', PyNone), (''bar'', PyNone)]\<rparr>)
     = [(''foo'', PyNone), (''bar'', PyNone), (''boink'', PyInt 25)]"
  by (simp add: execute_all_def dict_update_def)

text \<open>
  Claim C7, amended. At every point after construction, under any sequence of
  attribute-style and subscript-style reads and writes, whether they succeed or raise,
  the key set of the instance is exactly the schema key set of its type, each key is
  held once, and the instance keeps its type: no read or write adds a field, removes
  one or leaves one absent.
\<close>

theorem key_set_invariant:
  assumes "NamedStruct_new c args kwargs = Inr s"
  shows "cls (run others ops s) = c
       \<and> set (dict_keys (items (run others ops s))) = set (dict_keys (members c))
       \<and> distinct (dict_keys (items (run others ops s)))"
  using run_invariant[of s others ops] NamedStruct_new_shape[OF assms] by simp

theorem key_set_invariant_witness:
  "cls (run Map.empty
            [SetAttr ''foo'' (PyInt 17), SetItem ''baz'' (PyInt 1), GetAttr ''bar'',
             SetAttr ''qux'' PyNone, SetItem ''bar'' (PyInt 42), GetItem ''nope'']
            \<lparr>cls = named_struct (NameString ''foo, bar'') None,
             items = [(''foo'', PyNone), (''bar'', PyNone)]\<rparr>)
     = named_struct (NameString ''foo, bar'') None
   \<and> set (dict_keys (items (run Map.empty
            [SetAttr ''foo'' (PyInt 17), SetItem ''baz'' (PyInt 1), GetAttr ''bar'',
             SetAttr ''qux'' PyNone, SetItem ''bar'' (PyInt 42), GetItem ''nope'']
            \<lparr>cls = named_struct (NameString ''foo, bar'') None,
             items = [(''foo'', PyNone), (''bar'', PyNone)]\<rparr>)))
     = {''foo'', ''bar''}"
proof -
  let ?c = "named_struct (NameString ''foo, bar'') None"
  have new: "NamedStruct_new ?c [] [] = Inr \<lparr>cls = ?c, items = [(''foo'', PyNone), (''bar'', PyNone)]\<rparr>"
    by (simp add: eval_defs)
  have m: "set (dict_keys (members ?c)) = {''foo'', ''bar''}"
    by (simp add: eval_defs)
  from key_set_invariant[OF new] show ?thesis
    unfolding m by blast
qed

lemma run_example:
  "items (run Map.empty
              [SetAttr ''foo'' (PyInt 17), SetItem ''baz'' (PyInt 1), GetAttr ''bar'',
               SetAttr ''qux'' PyNone, SetItem ''bar'' (PyInt 42), GetItem ''nope'']
              \<lparr>cls = named_struct (NameString ''foo, bar'') None,
               items = [(''foo'', PyNone), (''bar'', PyNone)]\<rparr>)
     = [(''foo'', PyInt 17), (''bar'', PyInt 42)]"
  by (simp add: run_def setitem_eq setattr_eq eval_defs)

section \<open>Reading and writing fields\<close>




text \<open>
  Claim C10. For a declared field name \<open>k\<close> and a value \<open>v\<close>: the write of \<open>v\<close> to \<open>k\<close>
  succeeds in either style, with the same resulting instance; reading \<open>k\<close> then returns
  \<open>v\<close>, and reading any other name gives what it gave before the write.
\<close>

theorem write_then_read:
  assumes "dict_contains (get_members s) k"
  shows "\<exists>s'. NamedStruct_setitem s k v = Inr s'
            \<and> NamedStruct_setattr s k v = Inr s'
            \<and> NamedStruct_getitem s' k = Inr v
            \<and> (\<forall>k'. k' \<noteq> k \<longrightarrow> NamedStruct_getitem s' k' = NamedStruct_getitem s k')"
  using assms
  by (simp add: getitem_eq setitem_eq setattr_eq get_members_def map_of_setitem)


theorem write_then_read_witness:
  "\<exists>s'. NamedStruct_setitem \<lparr>cls = named_struct (NameString ''foo, bar'') None,
                                  items = [(''foo'', PyNone), (''bar'', PyInt 42)]\<rparr> ''foo'' (PyInt 17) = Inr s'
        \<and> NamedStruct_setattr \<lparr>cls = named_struct (NameString ''foo, bar'') None,
                                  items = [(''foo'', PyNone), (''bar'', PyInt 42)]\<rparr> ''foo'' (PyInt 17) = Inr s'
        \<and> NamedStruct_getitem s' ''foo'' = Inr (PyInt 17)
        \<and> NamedStruct_getitem s' ''bar'' = Inr (PyInt 42)"
proof -
  let ?c = "named_struct (NameString ''foo, bar'') None"
  let ?s = "\<lparr>cls = ?c, items = [(''foo'', PyNone), (''bar'', PyInt 42)]\<rparr>"
  have m: "members ?c = [(''foo'', \<lparr>default_val = PyNone\<rparr>), (''bar'', \<lparr>default_val = PyNone\<rparr>)]"
    by (simp add: eval_defs)
  have "dict_contains (get_members ?s) ''foo''"
    by (simp add: get_members_def m dict_contains_def dict_keys_def)
  from write_then_read[OF this, of "PyInt 17"] obtain s' where
    s': "NamedStruct_setitem ?s ''foo'' (PyInt 17) = Inr s'"
        "NamedStruct_setattr ?s ''foo'' (PyInt 17) = Inr s'"
        "NamedStruct_getitem s' ''foo'' = Inr (PyInt 17)"
        "\<forall>k'. k' \<noteq> ''foo'' \<longrightarrow> NamedStruct_getitem s' k' = NamedStruct_getitem ?s k'"
    by blast
  from s'(4) have "NamedStruct_getitem s' ''bar'' = NamedStruct_getitem ?s ''bar''"
    by simp
  also have "\<dots> = Inr (PyInt 42)"
    by (simp add: getitem_eq m dict_contains_def dict_keys_def)
  finally show ?thesis
    using s'(1-3) by blast
qed

section \<open>The ad-hoc type factory: schema and empty construction\<close>

lemma split_words_word:
  "\<forall>ch \<in> set n. \<not> isspace ch \<Longrightarrow> split_words w (n @ rest) = split_words (w @ n) rest"
  by (induction n arbitrary: w) simp_all

lemma split_words_spaces:
  "\<forall>ch \<in> set sp. isspace ch \<Longrightarrow> split_words [] (sp @ rest) = split_words [] rest"
  by (induction sp) simp_all

lemma split_words_end:
  "w \<noteq> [] \<Longrightarrow> \<forall>ch \<in> set sp. isspace ch \<Longrightarrow> split_words w sp = [w]"
  by (cases sp) (simp_all add: split_words_spaces[where rest="[]", simplified])

lemma split_words_cut:
  "w \<noteq> [] \<Longrightarrow> sp \<noteq> [] \<Longrightarrow> \<forall>ch \<in> set sp. isspace ch \<Longrightarrow>
     split_words w (sp @ rest) = w # split_words [] rest"
  by (cases sp) (simp_all add: split_words_spaces)

lemma joined_Nil: "joined [] seps = []"
  by (simp add: joined_def)

lemma joined_Cons: "joined (n # ns) (sp # sps) = n @ sp @ joined ns sps"
  by (simp add: joined_def)

lemma split_words_joined:
  assumes "\<forall>n \<in> set names. n \<noteq> [] \<and> (\<forall>ch \<in> set n. \<not> isspace ch)"
    and "length seps = length names"
    and "\<forall>sp \<in> set seps. \<forall>ch \<in> set sp. isspace ch"
    and "\<forall>sp \<in> set (butlast seps). sp \<noteq> []"
  shows "split_words [] (joined names seps) = names"
  using assms
proof (induction names arbitrary: seps)
  case Nil
  then show ?case by (simp add: joined_Nil)
next
  case (Cons n ns)
  from Cons.prems(2) obtain sp sps where seps: "seps = sp # sps" and len: "length sps = length ns"
    by (cases seps) auto
  from Cons.prems(1) have n: "n \<noteq> []" "\<forall>ch \<in> set n. \<not> isspace ch" by simp_all
  from Cons.prems(3) seps have sp: "\<forall>ch \<in> set sp. isspace ch" by simp
  have word: "split_words [] (joined (n # ns) seps) = split_words n (sp @ joined ns sps)"
    using split_words_word[OF n(2), of "[]"] by (simp add: seps joined_Cons)
  show ?case
  proof (cases ns)
    case Nil
    with len have "joined ns sps = []" by (simp add: joined_Nil)
    with word n(1) sp Nil show ?thesis
      by (simp add: split_words_end)
  next
    case (Cons m ms)
    with len have "sps \<noteq> []" by auto
    with Cons.prems(4) seps have nonempty: "sp \<noteq> []" and rest: "\<forall>sp \<in> set (butlast sps). sp \<noteq> []"
      by simp_all
    have "split_words [] (joined ns sps) = ns"
      using Cons.prems(1,3) seps len rest by (intro Cons.IH) simp_all
    with word n(1) sp nonempty show ?thesis
      by (simp add: split_words_cut)
  qed
qed

lemma map_joined: "map f (joined names seps) = joined (map (map f) names) (map (map f) seps)"
  by (simp add: joined_def map_concat zip_map_map case_prod_unfold comp_def)

lemma str_split_replace_joined:
  assumes "\<forall>n \<in> set names. n \<noteq> [] \<and> (\<forall>ch \<in> set n. \<not> is_separator ch)"
    and "length seps = length names"
    and "\<forall>sp \<in> set seps. \<forall>ch \<in> set sp. is_separator ch"
    and "\<forall>sp \<in> set (butlast seps). sp \<noteq> []"
    and "\<forall>ch \<in> set lead. is_separator ch"
  shows "str_split (str_replace (CHR '','') (CHR 0x20) (lead @ joined names seps)) = names"
proof -
  let ?f = "\<lambda>ch. if ch = CHR '','' then CHR 0x20 else ch"
  have keep: "map ?f n = n" if "n \<in> set names" for n
    using assms(1) that by (intro map_idI) (auto simp: is_separator_def)
  have nosp: "\<not> isspace ch" if "n \<in> set names" "ch \<in> set n" for n ch
    using assms(1) that by (auto simp: is_separator_def)
  have names: "map (map ?f) names = names"
    using keep by (simp add: map_idI)
  have "str_split (str_replace (CHR '','') (CHR 0x20) (lead @ joined names seps))
          = split_words [] (map ?f lead @ joined names (map (map ?f) seps))"
    by (simp add: str_split_def str_replace_def map_joined names)
  also have "\<dots> = split_words [] (joined names (map (map ?f) seps))"
  proof (rule split_words_spaces)
    show "\<forall>ch \<in> set (map ?f lead). isspace ch"
      using assms(5) by (auto simp: is_separator_def isspace_def)
  qed
  also have "\<dots> = names"
  proof (rule split_words_joined)
    show "\<forall>n \<in> set names. n \<noteq> [] \<and> (\<forall>ch \<in> set n. \<not> isspace ch)"
      using assms(1) nosp by blast
    show "length (map (map ?f) seps) = length names"
      using assms(2) by simp
    show "\<forall>sp \<in> set (map (map ?f) seps). \<forall>ch \<in> set sp. isspace ch"
      using assms(3) by (auto simp: is_separator_def isspace_def)
    show "\<forall>sp \<in> set (butlast (map (map ?f) seps)). sp \<noteq> []"
      using assms(4) by (auto simp: map_butlast[symmetric])
  qed
  finally show ?thesis .
qed


lemma set_setitem_subset: "set (dict_setitem k v d) \<subseteq> insert (k, v) (set d)"
  by (induction d) auto

lemma set_update_subset: "set (dict_update d ps) \<subseteq> set d \<union> set ps"
proof (induction ps arbitrary: d)
  case Nil
  then show ?case by (simp add: dict_update_Nil)
next
  case (Cons p ps)
  obtain k v where p: "p = (k, v)" by (cases p)
  from Cons.IH[of "dict_setitem k v d"] set_setitem_subset[of k v d]
  show ?case by (auto simp: p dict_update_Cons)
qed

lemma named_struct_seq:
  "named_struct (NameSeq names) typename =
     \<lparr>cls_name = (case typename of None \<Rightarrow> ''NamedStruct'' | Some t \<Rightarrow> t),
      members = dict_update [] (dict_update [] (map (\<lambda>field. (field, \<lparr>default_val = PyNone\<rparr>)) names))\<rparr>"
  by (simp add: named_struct_def type_new_def NamedStruct_def dict_of_def)

lemma named_struct_members:
  fixes names typename
  defines "c \<equiv> named_struct (NameSeq names) typename"
  shows "set (dict_keys (members c)) = set names"
    and "distinct (dict_keys (members c))"
    and "distinct names \<Longrightarrow> dict_keys (members c) = names"
    and "\<forall>field \<in> snd ` set (members c). default_val field = PyNone"
proof -
  let ?body = "map (\<lambda>field. (field, \<lparr>default_val = PyNone\<rparr>)) names"
  have m: "members c = dict_update [] (dict_update [] ?body)"
    by (simp add: c_def named_struct_seq)
  have keys: "map fst ?body = names"
    by (simp add: comp_def)
  show "set (dict_keys (members c)) = set names"
    unfolding m by (simp add: dict_keys_def fst_set_update image_comp comp_def)
  show "distinct (dict_keys (members c))"
    unfolding m by (simp add: distinct_update dict_keys_def[of "[]"])
  show "dict_keys (members c) = names" if "distinct names"
  proof -
    from that keys have "dict_of ?body = ?body"
      by (intro dict_of_distinct) simp
    then show ?thesis
      unfolding m by (simp add: dict_of_def dict_keys_def comp_def)
  qed
  have "set (members c) \<subseteq> set ?body"
    unfolding m using set_update_subset[of "[]" "dict_update [] ?body"] set_update_subset[of "[]" ?body]
    by auto
  then show "\<forall>field \<in> snd ` set (members c). default_val field = PyNone"
    by auto
qed

text \<open>
  Claim C8. Given the field names as a sequence, or as one string in which the names are
  separated by commas and/or whitespace (possibly after leading and before trailing
  separators), and an optional type name that defaults to \<open>NamedStruct\<close>, the factory
  returns a type with that name whose schema has exactly the given names, each once, in
  the given order when the names are distinct. Constructing it with no arguments succeeds;
  the instance has the keys of the schema, and every value is \<open>None\<close>.
\<close>

theorem named_struct_factory:
  assumes "field_names = NameSeq names
         \<or> field_names = NameString (lead @ joined names seps)
           \<and> (\<forall>n \<in> set names. n \<noteq> [] \<and> (\<forall>ch \<in> set n. \<not> is_separator ch))
           \<and> length seps = length names
           \<and> (\<forall>sp \<in> set seps. \<forall>ch \<in> set sp. is_separator ch)
           \<and> (\<forall>sp \<in> set (butlast seps). sp \<noteq> [])
           \<and> (\<forall>ch \<in> set lead. is_separator ch)"
  shows "cls_name (named_struct field_names typename)
           = (case typename of None \<Rightarrow> ''NamedStruct'' | Some t \<Rightarrow> t)
       \<and> set (dict_keys (members (named_struct field_names typename))) = set names
       \<and> distinct (dict_keys (members (named_struct field_names typename)))
       \<and> (distinct names \<longrightarrow> dict_keys (members (named_struct field_names typename)) = names)
       \<and> (\<exists>s. NamedStruct_new (named_struct field_names typename) [] [] = Inr s
              \<and> dict_keys (items s) = dict_keys (members (named_struct field_names typename))
              \<and> (\<forall>k \<in> set names. NamedStruct_getitem s k = Inr PyNone)
              \<and> (\<forall>v \<in> snd ` set (items s). v = PyNone))"
proof -
  let ?c = "named_struct (NameSeq names) typename"
  have same: "named_struct field_names typename = ?c"
    using assms
  proof
    assume "field_names = NameSeq names"
    then show ?thesis by simp
  next
    assume str: "field_names = NameString (lead @ joined names seps)
           \<and> (\<forall>n \<in> set names. n \<noteq> [] \<and> (\<forall>ch \<in> set n. \<not> is_separator ch))
           \<and> length seps = length names
           \<and> (\<forall>sp \<in> set seps. \<forall>ch \<in> set sp. is_separator ch)
           \<and> (\<forall>sp \<in> set (butlast seps). sp \<noteq> [])
           \<and> (\<forall>ch \<in> set lead. is_separator ch)"
    then have "str_split (str_replace (CHR '','') (CHR 0x20) (lead @ joined names seps)) = names"
      by (intro str_split_replace_joined) blast+
    with str show ?thesis
      by (simp add: named_struct_def)
  qed
  note m = named_struct_members[of names typename]
  let ?s = "\<lparr>cls = ?c, items = bound_items ?c [] []\<rparr>"
  have new: "NamedStruct_new ?c [] [] = Inr ?s"
    using m(2) by (intro NamedStruct_new_InrI) (simp_all add: dict_keys_def)
  have items: "items ?s = map (\<lambda>(name, field). (name, default_val field)) (members ?c)"
    by (simp add: bound_items_def dict_get_def)
  have vals: "\<forall>v \<in> snd ` set (items ?s). v = PyNone"
    unfolding items using m(4) by (auto simp: image_iff)
  have keys: "dict_keys (items ?s) = dict_keys (members ?c)"
    by (simp add: dict_keys_bound_items)
  have reads: "NamedStruct_getitem ?s k = Inr PyNone" if "k \<in> set names" for k
  proof -
    from that m(1) have mem: "k \<in> set (dict_keys (members ?c))" by simp
    with keys have "k \<in> set (dict_keys (items ?s))" by simp
    then obtain v where v: "map_of (items ?s) k = Some v"
      by (metis dict_keys_def map_of_eq_None_iff not_Some_eq set_map)
    then have "v \<in> snd ` set (items ?s)"
      by (metis image_eqI map_of_SomeD snd_conv)
    with vals have "v = PyNone" by blast
    with v mem show ?thesis
      by (simp add: getitem_eq dict_contains_def)
  qed
  show ?thesis
    unfolding same
    using m(1,2,3) new keys reads vals
    by (intro conjI impI exI[of _ ?s]) (simp_all add: named_struct_seq)
qed

theorem named_struct_factory_witness:
  "cls_name (named_struct (NameString ''foo, bar'') None) = ''NamedStruct''
   \<and> dict_keys (members (named_struct (NameString ''foo, bar'') None)) = [''foo'', ''bar'']
   \<and> (\<exists>s. NamedStruct_new (named_struct (NameString ''foo, bar'') None) [] [] = Inr s
          \<and> dict_keys (items s) = [''foo'', ''bar'']
          \<and> NamedStruct_getitem s ''foo'' = Inr PyNone
          \<and> NamedStruct_getitem s ''bar'' = Inr PyNone)"
proof -
  let ?c = "named_struct (NameString ''foo, bar'') None"
  have "NameString ''foo, bar'' = NameSeq [''foo'', ''bar'']
      \<or> NameString ''foo, bar'' = NameString ([] @ joined [''foo'', ''bar''] ['', '', []])
        \<and> (\<forall>n \<in> set [''foo'', ''bar'']. n \<noteq> [] \<and> (\<forall>ch \<in> set n. \<not> is_separator ch))
        \<and> length ['', '', []] = length [''foo'', ''bar'']
        \<and> (\<forall>sp \<in> set ['', '', []]. \<forall>ch \<in> set sp. is_separator ch)
        \<and> (\<forall>sp \<in> set (butlast ['', '', []]). sp \<noteq> [])
        \<and> (\<forall>ch \<in> set []. is_separator ch)"
  proof (intro disjI2 conjI)
    show "NameString ''foo, bar'' = NameString ([] @ joined [''foo'', ''bar''] ['', '', []])"
      by (simp add: joined_def)
    show "\<forall>n \<in> set [''foo'', ''bar'']. n \<noteq> [] \<and> (\<forall>ch \<in> set n. \<not> is_separator ch)"
      by (simp add: is_separator_def isspace_def)
    show "\<forall>sp \<in> set ['', '', []]. \<forall>ch \<in> set sp. is_separator ch"
      by (simp add: is_separator_def isspace_def)
  qed simp_all
  note fact = named_struct_factory[OF this, of None]
  from fact have a: "cls_name ?c = ''NamedStruct''"
    by simp
  from fact have "distinct [''foo'', ''bar''] \<longrightarrow> dict_keys (members ?c) = [''foo'', ''bar'']"
    by (elim conjE)
  then have b: "dict_keys (members ?c) = [''foo'', ''bar'']"
    by simp
  from fact obtain s where c: "NamedStruct_new ?c [] [] = Inr s"
    and d: "dict_keys (items s) = dict_keys (members ?c)"
    and e: "\<forall>k \<in> set [''foo'', ''bar'']. NamedStruct_getitem s k = Inr PyNone"
    by (elim conjE exE)
  from e have "NamedStruct_getitem s ''foo'' = Inr PyNone" "NamedStruct_getitem s ''bar'' = Inr PyNone"
    by simp_all
  with a b c d show ?thesis
    by (intro conjI exI[of _ s]) simp_all
qed

section \<open>The frozen variant: writes are rejected\<close>

lemma perform_frozen_fixed: "frozen f \<Longrightarrow> snd (perform_frozen operation f) = f"
  by (cases operation) (simp_all add: NamedFrozenStruct_setitem_def NamedFrozenStruct_setattr_def)

lemma run_frozen_fixed: "frozen f \<Longrightarrow> run_frozen ops f = f"
  unfolding run_frozen_def by (induction ops) (simp_all add: perform_frozen_fixed)

lemma NamedFrozenStruct_new_frozen:
  "NamedFrozenStruct_new c args kwargs = Inr f \<Longrightarrow>
     frozen f \<and> NamedStruct_new c args kwargs = Inr (struct f)"
  by (auto simp: NamedFrozenStruct_new_def split: sum.splits)

text \<open>
  Claim C9. For a frozen-struct instance whose construction has completed, every write,
  attribute-style or subscript-style, to a name that is a schema field or to any other
  name, fails with the immutability error, and after any sequence of reads and write
  attempts the instance, stored values included, is what it was.
\<close>

theorem frozen_writes_rejected:
  assumes "NamedFrozenStruct_new c args kwargs = Inr f"
  shows "NamedFrozenStruct_setitem f k v = Inl ImmutabilityViolation
       \<and> NamedFrozenStruct_setattr f k v = Inl ImmutabilityViolation
       \<and> fst (perform_frozen (SetItem k v) f) = Inl ImmutabilityViolation
       \<and> fst (perform_frozen (SetAttr k v) f) = Inl ImmutabilityViolation
       \<and> run_frozen ops f = f"
proof -
  from NamedFrozenStruct_new_frozen[OF assms] have "frozen f" ..
  then show ?thesis
    by (simp add: NamedFrozenStruct_setitem_def NamedFrozenStruct_setattr_def run_frozen_fixed)
qed

theorem frozen_writes_rejected_witness:
  "NamedFrozenStruct_setitem
      \<lparr>struct = \<lparr>cls = named_struct (NameString ''foo, bar'') None,
                 items = [(''foo'', PyInt 17), (''bar'', PyInt 42)]\<rparr>, frozen = True\<rparr>
      ''foo'' (PyInt 1) = Inl ImmutabilityViolation
   \<and> NamedFrozenStruct_setattr
      \<lparr>struct = \<lparr>cls = named_struct (NameString ''foo, bar'') None,
                 items = [(''foo'', PyInt 17), (''bar'', PyInt 42)]\<rparr>, frozen = True\<rparr>
      ''boink'' (PyInt 1) = Inl ImmutabilityViolation
   \<and> run_frozen [SetAttr ''foo'' (PyInt 1), SetItem ''boink'' (PyInt 2), SetItem ''bar'' PyNone]
      \<lparr>struct = \<lparr>cls = named_struct (NameString ''foo, bar'') None,
                 items = [(''foo'', PyInt 17), (''bar'', PyInt 42)]\<rparr>, frozen = True\<rparr>
     = \<lparr>struct = \<lparr>cls = named_struct (NameString ''foo, bar'') None,
                 items = [(''foo'', PyInt 17), (''bar'', PyInt 42)]\<rparr>, frozen = True\<rparr>"
proof -
  let ?c = "named_struct (NameString ''foo, bar'') None"
  let ?f = "\<lparr>struct = \<lparr>cls = ?c, items = [(''foo'', PyInt 17), (''bar'', PyInt 42)]\<rparr>, frozen = True\<rparr>"
  have new: "NamedFrozenStruct_new ?c [PyInt 17] [(''bar'', PyInt 42)] = Inr ?f"
    by (simp add: NamedFrozenStruct_new_def eval_defs)
  from frozen_writes_rejected[OF new, of "''foo''" "PyInt 1"]
       frozen_writes_rejected[OF new, of "''boink''" "PyInt 1"
          "[SetAttr ''foo'' (PyInt 1), SetItem ''boink'' (PyInt 2), SetItem ''bar'' PyNone]"]
  show ?thesis by simp
qed

end
